theory Spec2Isabelle
  imports
    Main
    "HOL-Library.Char_ord"
    "HOL-Library.List_Lexorder"
    "HOL-Library.Product_Lexorder"
    "HOL-Library.Sublist"
    "HOL-Library.AList"
    "HOL-Library.Multiset"
begin

section \<open>Text primitives of the Python runtime\<close>

text \<open>
  Text is a \<^typ>\<open>string\<close>: one \<^typ>\<open>char\<close> per code point, so the model covers the
  code points below 256. A file is absent, or holds such a text, or cannot be read as text
  (\<open>read_text(encoding="utf-8")\<close> raises). Strings are ordered as Python orders them, lexicographically by code
  point (\<open>Char_ord\<close>, \<open>List_Lexorder\<close>), and tuples lexicographically
  (\<open>Product_Lexorder\<close>).
\<close>

definition is_space :: "char \<Rightarrow> bool" where
  \<comment> \<open>\<open>str.isspace\<close> on one character, which is also the class \<open>\s\<close> of \<open>re\<close>.\<close>
  "is_space c = ((of_char c :: nat) \<in> {9, 10, 11, 12, 13, 28, 29, 30, 31, 32, 133, 160})"

definition is_linebreak :: "char \<Rightarrow> bool" where
  \<comment> \<open>The line boundaries of \<open>str.splitlines\<close>.\<close>
  "is_linebreak c = ((of_char c :: nat) \<in> {10, 11, 12, 13, 28, 29, 30, 133})"

fun splitlines_acc :: "string \<Rightarrow> string \<Rightarrow> string list" where
  "splitlines_acc cur [] = (if cur = [] then [] else [rev cur])"
| "splitlines_acc cur [c] =
     (if is_linebreak c then [rev cur] else [rev (c # cur)])"
| "splitlines_acc cur (c # d # cs) =
     (if c = CHR 0x0D \<and> d = CHR 0x0A then rev cur # splitlines_acc [] cs
      else if is_linebreak c then rev cur # splitlines_acc [] (d # cs)
      else splitlines_acc (c # cur) (d # cs))"

definition splitlines :: "string \<Rightarrow> string list" where
  "splitlines s = splitlines_acc [] s"

definition strip :: "string \<Rightarrow> string" where
  "strip s = rev (dropWhile is_space (rev (dropWhile is_space s)))"

definition lower_char :: "char \<Rightarrow> char" where
  "lower_char c =
     (let n = (of_char c :: nat) in
      if (65 \<le> n \<and> n \<le> 90) \<or> (192 \<le> n \<and> n \<le> 222 \<and> n \<noteq> 215)
      then char_of (n + 32) else c)"

definition lower :: "string \<Rightarrow> string" where
  "lower s = map lower_char s"

definition startswith :: "string \<Rightarrow> string \<Rightarrow> bool" where
  "startswith s p = prefix p s"

fun str_in :: "string \<Rightarrow> string \<Rightarrow> bool" where
  \<comment> \<open>\<open>str_in sub s\<close> is Python's \<open>sub in s\<close>.\<close>
  "str_in sub [] = (sub = [])"
| "str_in sub (c # cs) = (prefix sub (c # cs) \<or> str_in sub cs)"

function split_acc :: "string \<Rightarrow> string \<Rightarrow> string \<Rightarrow> string list" where
  "split_acc sep cur [] = [rev cur]"
| "split_acc sep cur (c # cs) =
     (if sep \<noteq> [] \<and> prefix sep (c # cs)
      then rev cur # split_acc sep [] (drop (length sep) (c # cs))
      else split_acc sep (c # cur) cs)"
  by pat_completeness auto
termination
  by (relation "measure (\<lambda>(sep, cur, s). length s)") (auto simp: neq_Nil_conv)

definition split :: "string \<Rightarrow> string \<Rightarrow> string list" where
  \<comment> \<open>\<open>split s sep\<close> is \<open>s.split(sep)\<close> for a non-empty separator (Python raises on an
      empty one; every separator of this program is a non-empty literal).\<close>
  "split s sep = split_acc sep [] s"

fun split1_acc :: "string \<Rightarrow> string \<Rightarrow> string \<Rightarrow> string list" where
  "split1_acc sep cur [] = [rev cur]"
| "split1_acc sep cur (c # cs) =
     (if sep \<noteq> [] \<and> prefix sep (c # cs)
      then [rev cur, drop (length sep) (c # cs)]
      else split1_acc sep (c # cur) cs)"

definition split1 :: "string \<Rightarrow> string \<Rightarrow> string list" where
  \<comment> \<open>\<open>split1 s sep\<close> is \<open>s.split(sep, 1)\<close>: at most one cut, at the first occurrence.\<close>
  "split1 s sep = split1_acc sep [] s"

fun join :: "string \<Rightarrow> string list \<Rightarrow> string" where
  \<comment> \<open>\<open>join sep xs\<close> is \<open>sep.join(xs)\<close>.\<close>
  "join sep [] = []"
| "join sep [x] = x"
| "join sep (x # y # ys) = x @ sep @ join sep (y # ys)"

definition digit_char :: "nat \<Rightarrow> char" where
  "digit_char d = char_of (48 + d)"

function str_nat :: "nat \<Rightarrow> string" where
  "str_nat n = (if n < 10 then [digit_char n] else str_nat (n div 10) @ [digit_char (n mod 10)])"
  by pat_completeness auto
termination
  by (relation "measure id") auto

definition str_int :: "int \<Rightarrow> string" where
  \<comment> \<open>\<open>str(i)\<close> of a Python int, as an f-string renders it.\<close>
  "str_int i = (if i < 0 then CHR ''-'' # str_nat (nat (- i)) else str_nat (nat i))"

section \<open>The bullet pattern \<open>_BULLET_RE = ^\s*-\s+\<close>\<close>

definition BULLET_RE_match :: "string \<Rightarrow> bool" where
  \<comment> \<open>\<open>_BULLET_RE.match(line)\<close>: leading whitespace, a dash, at least one whitespace.\<close>
  "BULLET_RE_match line =
     (case dropWhile is_space line of
        c # d # rest \<Rightarrow> c = CHR ''-'' \<and> is_space d
      | _ \<Rightarrow> False)"

definition BULLET_RE_sub :: "string \<Rightarrow> string" where
  \<comment> \<open>\<open>_BULLET_RE.sub("", line)\<close>: the pattern is anchored, so only a match at the start
      is removed, together with all the whitespace after the dash.\<close>
  "BULLET_RE_sub line =
     (if BULLET_RE_match line then dropWhile is_space (tl (dropWhile is_space line))
      else line)"

section \<open>Files\<close>

datatype path = Path string | Slash path string

text \<open>
  What \<open>read_text(encoding="utf-8")\<close> meets at a path that exists: \<open>Text t\<close>, bytes that
  decode to the text \<open>t\<close>; \<open>Undecodable\<close>, bytes that are not valid UTF-8
  (\<open>UnicodeDecodeError\<close>); \<open>Unreadable\<close>, a directory or a file the process may not read
  (an \<open>OSError\<close> other than \<open>FileNotFoundError\<close>). A path that does not exist is \<open>None\<close>.
\<close>

datatype content = Text string | Undecodable | Unreadable

type_synonym files = "path \<Rightarrow> content option"

datatype error =
    SystemExit_missing_file path
  | FileNotFoundError path
  | UnicodeDecodeError path
  | OSError path

definition read_text :: "files \<Rightarrow> path \<Rightarrow> error + string" where
  \<comment> \<open>\<open>path.read_text(encoding="utf-8")\<close>\<close>
  "read_text fs p =
     (case fs p of
        None \<Rightarrow> Inl (FileNotFoundError p)
      | Some (Text t) \<Rightarrow> Inr t
      | Some Undecodable \<Rightarrow> Inl (UnicodeDecodeError p)
      | Some Unreadable \<Rightarrow> Inl (OSError p))"


record edge =
  edge_type :: string
  src :: string
  dst :: string
  line_no :: nat

record edge_v = edge +
  raw :: string

definition no_files :: files where
  \<comment> \<open>A file system in which every path is absent.\<close>
  "no_files = Map.empty"

section \<open>\<open>validate_codegraph.py\<close>\<close>

definition read_lines_v :: "files \<Rightarrow> path \<Rightarrow> error + string list" where
  \<comment> \<open>Only \<open>FileNotFoundError\<close> is caught and turned into \<open>SystemExit\<close>.\<close>
  "read_lines_v fs p =
     (case read_text fs p of
        Inr t \<Rightarrow> Inr (splitlines t)
      | Inl (FileNotFoundError q) \<Rightarrow> Inl (SystemExit_missing_file p)
      | Inl e \<Rightarrow> Inl e)"

type_synonym schema_state = "string set \<times> string set \<times> string option"

definition parse_schema_line :: "string \<Rightarrow> schema_state \<Rightarrow> schema_state" where
  \<comment> \<open>One pass of the loop body of \<open>parse_schema\<close>; the state is
      \<open>(node_types, edge_types, section)\<close>.\<close>
  "parse_schema_line line st =
     (case st of (node_types, edge_types, section) \<Rightarrow>
        let stripped = strip line in
        if stripped = ''## Node Types'' then (node_types, edge_types, Some ''nodes'')
        else if stripped = ''## Edge Types'' then (node_types, edge_types, Some ''edges'')
        else if \<not> BULLET_RE_match line then st
        else
          let label = strip (BULLET_RE_sub line) in
          if label = [] then st
          else if section = Some ''nodes'' then (insert label node_types, edge_types, section)
          else if section = Some ''edges'' then (node_types, insert label edge_types, section)
          else st)"

definition parse_schema_lines :: "string list \<Rightarrow> schema_state" where
  "parse_schema_lines lines = fold parse_schema_line lines ({}, {}, None)"

definition parse_schema :: "files \<Rightarrow> path \<Rightarrow> error + (string set \<times> string set)" where
  "parse_schema fs schema_path =
     (case read_lines_v fs schema_path of
        Inl e \<Rightarrow> Inl e
      | Inr lines \<Rightarrow>
          (case parse_schema_lines lines of
             (node_types, edge_types, section) \<Rightarrow> Inr (node_types, edge_types)))"

definition parse_nodes_v_line :: "string \<Rightarrow> (string \<times> string) list \<Rightarrow> (string \<times> string) list" where
  \<comment> \<open>The dict \<open>nodes\<close> is an association list in insertion order.\<close>
  "parse_nodes_v_line line nodes =
     (if \<not> BULLET_RE_match line then nodes
      else
        let token = strip (BULLET_RE_sub line) in
        if token = [] \<or> startswith token ''http://'' \<or> startswith token ''https://'' then nodes
        else if \<not> str_in '':'' token then nodes
        else
          (case split1 token '':'' of
             [node_type, rest] \<Rightarrow> AList.update token node_type nodes
           | _ \<Rightarrow> nodes))"

definition parse_nodes_v_lines :: "string list \<Rightarrow> (string \<times> string) list" where
  "parse_nodes_v_lines lines = fold parse_nodes_v_line lines []"

definition parse_nodes_v :: "files \<Rightarrow> path \<Rightarrow> error + (string \<times> string) list" where
  "parse_nodes_v fs nodes_path =
     (case read_lines_v fs nodes_path of
        Inl e \<Rightarrow> Inl e
      | Inr lines \<Rightarrow> Inr (parse_nodes_v_lines lines))"

definition parse_edges_v_line :: "nat \<times> string \<Rightarrow> edge_v list \<Rightarrow> edge_v list" where
  "parse_edges_v_line numbered edges =
     (case numbered of (n, line) \<Rightarrow>
        if \<not> BULLET_RE_match line then edges
        else
          let token = strip (BULLET_RE_sub line) in
          if token = [] then edges
          else
            let parts = map strip (split token ''|'') in
            if length parts < 2 then edges
            else
              let link = parts ! 1 in
              if \<not> str_in ''->'' link then edges
              else
                (case map strip (split1 link ''->'') of
                   [s, d] \<Rightarrow>
                     if s = [] \<or> d = [] then edges
                     else edges @ [\<lparr>edge_type = parts ! 0, src = s, dst = d, line_no = n,
                                    raw = line\<rparr>]
                 | _ \<Rightarrow> edges))"

definition parse_edges_v_lines :: "string list \<Rightarrow> edge_v list" where
  "parse_edges_v_lines lines = fold parse_edges_v_line (enumerate 1 lines) []"

definition parse_edges_v :: "files \<Rightarrow> path \<Rightarrow> error + edge_v list" where
  "parse_edges_v fs edges_path =
     (case read_lines_v fs edges_path of
        Inl e \<Rightarrow> Inl e
      | Inr lines \<Rightarrow> Inr (parse_edges_v_lines lines))"

text \<open>
  The error strings of \<open>validate\<close>, one constructor per f-string, its arguments the
  interpolated values:
  \<^item> \<open>NodeTypeNotInSchema node_type node\<close>: \<^verbatim>\<open>node type not in schema: {node_type} ({node})\<close>
  \<^item> \<open>EdgeTypeNotInSchema edges_path line_no edge_type\<close>:
    \<^verbatim>\<open>{edges_path}:{edge.line_no}: edge type not in schema: {edge.edge_type}\<close>
  \<^item> \<open>MissingSrcNode edges_path line_no src\<close>:
    \<^verbatim>\<open>{edges_path}:{edge.line_no}: missing src node: {edge.src}\<close>
  \<^item> \<open>MissingDstNode edges_path line_no dst\<close>:
    \<^verbatim>\<open>{edges_path}:{edge.line_no}: missing dst node: {edge.dst}\<close>
\<close>

datatype verror =
    NodeTypeNotInSchema string string
  | EdgeTypeNotInSchema path nat string
  | MissingSrcNode path nat string
  | MissingDstNode path nat string

text \<open>
  What \<open>validate\<close> prints: \<open>FAIL errors\<close> is the line \<^verbatim>\<open>codegraph validation: FAIL\<close> and
  one line \<^verbatim>\<open>- {err}\<close> per error on the error stream; \<open>OK n m\<close> is the lines
  \<^verbatim>\<open>codegraph validation: OK\<close>, \<^verbatim>\<open>- nodes: {n}\<close>, \<^verbatim>\<open>- edges: {m}\<close> on the standard
  stream.
\<close>

datatype report = FAIL "verror list" | OK nat nat

definition node_check :: "string set \<Rightarrow> string \<times> string \<Rightarrow> verror list \<Rightarrow> verror list" where
  "node_check node_types item errors =
     (case item of (node, node_type) \<Rightarrow>
        if node_type \<notin> node_types then errors @ [NodeTypeNotInSchema node_type node]
        else errors)"

definition edge_check ::
  "path \<Rightarrow> string set \<Rightarrow> (string \<times> string) list \<Rightarrow> edge_v \<Rightarrow> verror list \<Rightarrow> verror list" where
  "edge_check edges_path edge_types nodes e errors =
     (let errors1 = (if edge_type e \<notin> edge_types
                     then errors @ [EdgeTypeNotInSchema edges_path (line_no e) (edge_type e)]
                     else errors);
          errors2 = (if map_of nodes (src e) = None
                     then errors1 @ [MissingSrcNode edges_path (line_no e) (src e)]
                     else errors1);
          errors3 = (if map_of nodes (dst e) = None
                     then errors2 @ [MissingDstNode edges_path (line_no e) (dst e)]
                     else errors2)
      in errors3)"

definition validate_errors ::
  "path \<Rightarrow> string set \<Rightarrow> string set \<Rightarrow> (string \<times> string) list \<Rightarrow> edge_v list \<Rightarrow> verror list" where
  \<comment> \<open>The two loops of \<open>validate\<close> that fill \<open>errors\<close>.\<close>
  "validate_errors edges_path node_types edge_types nodes edges =
     fold (edge_check edges_path edge_types nodes) edges
       (fold (node_check node_types) (sort nodes) [])"

definition validate :: "files \<Rightarrow> path \<Rightarrow> error + (int \<times> report)" where
  "validate fs codegraph_dir =
     (let schema_path = Slash codegraph_dir ''00_schema.md'';
          nodes_path = Slash codegraph_dir ''01_nodes.md'';
          edges_path = Slash codegraph_dir ''02_edges.md''
      in
      case parse_schema fs schema_path of
        Inl e \<Rightarrow> Inl e
      | Inr (node_types, edge_types) \<Rightarrow>
          (case parse_nodes_v fs nodes_path of
             Inl e \<Rightarrow> Inl e
           | Inr nodes \<Rightarrow>
               (case parse_edges_v fs edges_path of
                  Inl e \<Rightarrow> Inl e
                | Inr edges \<Rightarrow>
                    let errors = validate_errors edges_path node_types edge_types nodes edges in
                    if errors \<noteq> [] then Inr (1, FAIL errors)
                    else Inr (0, OK (length nodes) (length edges)))))"

section \<open>\<open>triage_entrypoints.py\<close>\<close>

definition csv_set :: "string \<Rightarrow> string set" where
  "csv_set v = set (filter (\<lambda>v. v \<noteq> []) (map strip (split v '','')))"

fun label_map_bullet :: "string list \<Rightarrow> string \<Rightarrow> (string \<rightharpoonup> string) \<Rightarrow> (string \<rightharpoonup> string)" where
  \<comment> \<open>The inner loop \<open>for sep in ("->", "=", ":")\<close> of \<open>parse_label_map\<close>.\<close>
  "label_map_bullet [] token mapping = mapping"
| "label_map_bullet (sep # seps) token mapping =
     (if \<not> str_in sep token then label_map_bullet seps token mapping
      else
        (case map strip (split1 token sep) of
           [s, d] \<Rightarrow> if s \<noteq> [] \<and> d \<noteq> [] then mapping(s \<mapsto> d) else mapping
         | _ \<Rightarrow> mapping))"

definition parse_label_map_line ::
  "string \<Rightarrow> (string \<rightharpoonup> string) \<times> bool \<Rightarrow> (string \<rightharpoonup> string) \<times> bool" where
  "parse_label_map_line line st =
     (case st of (mapping, in_section) \<Rightarrow>
        let stripped = strip line in
        if startswith stripped ''## '' then
          let header = lower (strip (drop 3 stripped)) in
          (mapping, header \<in> {''label map'', ''label mapping'', ''label-map'', ''label-mapping''})
        else if \<not> in_section then st
        else if \<not> BULLET_RE_match line then st
        else
          let token = strip (BULLET_RE_sub line) in
          if token = [] then st
          else (label_map_bullet [''->'', ''='', '':''] token mapping, in_section))"

definition parse_label_map_lines :: "string list \<Rightarrow> (string \<rightharpoonup> string)" where
  "parse_label_map_lines lines = fst (fold parse_label_map_line lines (Map.empty, False))"

definition parse_label_map :: "files \<Rightarrow> path \<Rightarrow> error + (string \<rightharpoonup> string)" where
  \<comment> \<open>Only \<open>FileNotFoundError\<close> is caught (the empty dict); any other exception of
      \<open>read_text\<close> propagates.\<close>
  "parse_label_map fs schema_path =
     (case read_text fs schema_path of
        Inr t \<Rightarrow> Inr (parse_label_map_lines (splitlines t))
      | Inl (FileNotFoundError q) \<Rightarrow> Inr Map.empty
      | Inl e \<Rightarrow> Inl e)"

definition read_lines_t :: "files \<Rightarrow> path \<Rightarrow> error + string list" where
  \<comment> \<open>No handler here: every exception of \<open>read_text\<close> propagates.\<close>
  "read_lines_t fs p =
     (case read_text fs p of
        Inr t \<Rightarrow> Inr (splitlines t)
      | Inl e \<Rightarrow> Inl e)"

definition parse_nodes_t_line :: "string \<Rightarrow> string set \<Rightarrow> string set" where
  "parse_nodes_t_line line nodes =
     (if \<not> BULLET_RE_match line then nodes
      else
        let token = strip (BULLET_RE_sub line) in
        if token = [] \<or> \<not> str_in '':'' token then nodes
        else insert token nodes)"

definition parse_nodes_t_lines :: "string list \<Rightarrow> string set" where
  "parse_nodes_t_lines lines = fold parse_nodes_t_line lines {}"

definition parse_nodes_t :: "files \<Rightarrow> path \<Rightarrow> error + string set" where
  "parse_nodes_t fs nodes_path =
     (case read_lines_t fs nodes_path of
        Inl e \<Rightarrow> Inl e
      | Inr lines \<Rightarrow> Inr (parse_nodes_t_lines lines))"

definition parse_edges_t_line :: "nat \<times> string \<Rightarrow> edge list \<Rightarrow> edge list" where
  "parse_edges_t_line numbered edges =
     (case numbered of (n, line) \<Rightarrow>
        if \<not> BULLET_RE_match line then edges
        else
          let token = strip (BULLET_RE_sub line) in
          if token = [] then edges
          else
            let parts = map strip (split token ''|'') in
            if length parts < 2 then edges
            else
              let link = parts ! 1 in
              if \<not> str_in ''->'' link then edges
              else
                (case map strip (split1 link ''->'') of
                   [s, d] \<Rightarrow>
                     if s = [] \<or> d = [] then edges
                     else edges @ [\<lparr>edge_type = parts ! 0, src = s, dst = d, line_no = n\<rparr>]
                 | _ \<Rightarrow> edges))"

definition parse_edges_t_lines :: "string list \<Rightarrow> edge list" where
  "parse_edges_t_lines lines = fold parse_edges_t_line (enumerate 1 lines) []"

definition parse_edges_t :: "files \<Rightarrow> path \<Rightarrow> error + edge list" where
  "parse_edges_t fs edges_path =
     (case read_lines_t fs edges_path of
        Inl e \<Rightarrow> Inl e
      | Inr lines \<Rightarrow> Inr (parse_edges_t_lines lines))"

definition is_typed :: "string \<Rightarrow> string \<Rightarrow> bool" where
  "is_typed node type_name = startswith node (type_name @ '':'')"

record stats =
  value_edges :: int
  call_edges :: int
  reads :: int
  writes :: int
  roles :: "string set"
  assets :: "string set"

definition new_stats :: stats where
  "new_stats = \<lparr>value_edges = 0, call_edges = 0, reads = 0, writes = 0, roles = {}, assets = {}\<rparr>"

text \<open>The keyword-only parameters of \<open>triage\<close>.\<close>

record labels =
  func_type :: string
  asset_type :: string
  value_edge_types :: "string set"
  call_edge_types :: "string set"
  reads_edge_type :: string
  writes_edge_type :: string
  role_edge_type :: string

type_synonym by_func = "(string \<times> stats) list"

definition count_edge :: "labels \<Rightarrow> edge \<Rightarrow> stats \<Rightarrow> stats" where
  \<comment> \<open>The \<open>if\<close>/\<open>elif\<close> chain of the edge loop, on the stats of the edge's source.\<close>
  "count_edge L e st =
     (if edge_type e \<in> value_edge_types L then
        (let st1 = st\<lparr>value_edges := value_edges st + 1\<rparr> in
         if is_typed (dst e) (asset_type L) then st1\<lparr>assets := insert (dst e) (assets st1)\<rparr>
         else st1)
      else if edge_type e \<in> call_edge_types L then st\<lparr>call_edges := call_edges st + 1\<rparr>
      else if edge_type e = reads_edge_type L then st\<lparr>reads := reads st + 1\<rparr>
      else if edge_type e = writes_edge_type L then st\<lparr>writes := writes st + 1\<rparr>
      else if edge_type e = role_edge_type L then st\<lparr>roles := insert (dst e) (roles st)\<rparr>
      else st)"

definition edge_step :: "labels \<Rightarrow> edge \<Rightarrow> by_func \<Rightarrow> by_func" where
  \<comment> \<open>One pass of the loop \<open>for edge in edges\<close>.\<close>
  "edge_step L e bf =
     (case map_of bf (src e) of
        None \<Rightarrow> bf
      | Some st \<Rightarrow> AList.update (src e) (count_edge L e st) bf)"

definition funcs_of :: "labels \<Rightarrow> string set \<Rightarrow> string list" where
  \<comment> \<open>\<open>funcs = sorted([n for n in nodes if is_typed(n, func_type)])\<close>\<close>
  "funcs_of L nodes = sorted_list_of_set (Set.filter (\<lambda>n. is_typed n (func_type L)) nodes)"

definition collect_stats :: "labels \<Rightarrow> string set \<Rightarrow> edge list \<Rightarrow> by_func" where
  \<comment> \<open>The dict \<open>by_func\<close> after the edge loop, in insertion order.\<close>
  "collect_stats L nodes edges =
     fold (edge_step L) edges
       (fold (\<lambda>func bf. AList.update func new_stats bf) (funcs_of L nodes) [])"

type_synonym rank = "int \<times> int \<times> int \<times> int \<times> int \<times> string"

definition rank_tuple :: "string \<times> stats \<Rightarrow> rank" where
  \<comment> \<open>The tuple that the ranking loop appends for one item of \<open>by_func\<close>.\<close>
  "rank_tuple item =
     (case item of (func, st) \<Rightarrow>
        (value_edges st, int (card (assets st)), call_edges st, writes st, reads st, func))"

definition rank_step :: "bool \<Rightarrow> string \<times> stats \<Rightarrow> rank list \<Rightarrow> rank list" where
  \<comment> \<open>One pass of the loop \<open>for func, stats in by_func.items()\<close>.\<close>
  "rank_step permissionless_only item ranked =
     (if permissionless_only \<and> roles (snd item) \<noteq> {} then ranked
      else ranked @ [rank_tuple item])"

definition kept :: "bool \<Rightarrow> string \<times> stats \<Rightarrow> bool" where
  \<comment> \<open>The items of \<open>by_func\<close> that the ranking loop does not skip.\<close>
  "kept p item = (\<not> (p \<and> roles (snd item) \<noteq> {}))"

definition sort_reverse :: "rank list \<Rightarrow> rank list" where
  \<comment> \<open>\<open>list.sort(reverse=True)\<close>: a stable sort that keeps equal elements in their
      original order.\<close>
  "sort_reverse xs = rev (sort (rev xs))"

definition ranking :: "bool \<Rightarrow> by_func \<Rightarrow> rank list" where
  \<comment> \<open>The list \<open>ranked\<close> after \<open>ranked.sort(reverse=True)\<close>.\<close>
  "ranking permissionless_only bf = sort_reverse (fold (rank_step permissionless_only) bf [])"

definition slice_to :: "int \<Rightarrow> 'a list \<Rightarrow> 'a list" where
  \<comment> \<open>\<open>xs[:stop]\<close>: a negative stop counts from the end; the bound is clamped to the
      list.\<close>
  "slice_to stop xs =
     (let n = int (length xs);
          k = (if stop < 0 then max 0 (n + stop) else min stop n)
      in take (nat k) xs)"

definition none_or_join :: "string list \<Rightarrow> string" where
  \<comment> \<open>\<open>"none" if not xs else ",".join(xs)\<close>\<close>
  "none_or_join xs = (if xs = [] then ''none'' else join '','' xs)"

definition render :: "by_func \<Rightarrow> rank \<Rightarrow> string" where
  \<comment> \<open>The body of the output loop: the line of one ranked tuple. Every \<open>func\<close> of a
      ranked tuple is a key of \<open>by_func\<close>; the lookup of any other key raises in Python
      and is given empty stats here.\<close>
  "render bf r =
     (case r of (v, asset_count, c, w, rd, func) \<Rightarrow>
        let st = (case map_of bf func of Some st \<Rightarrow> st | None \<Rightarrow> new_stats);
            role_str = none_or_join (sorted_list_of_set (roles st));
            asset_str = none_or_join (sorted_list_of_set (assets st))
        in ''- '' @ func @ '' | value_edges='' @ str_int v @ '' assets='' @ asset_str
           @ '' calls='' @ str_int c @ '' writes='' @ str_int w @ '' reads='' @ str_int rd
           @ '' roles='' @ role_str)"

definition triage_lines :: "int \<Rightarrow> bool \<Rightarrow> labels \<Rightarrow> string set \<Rightarrow> edge list \<Rightarrow> string list" where
  \<comment> \<open>\<open>triage\<close> from the parsed graph on.\<close>
  "triage_lines limit permissionless_only L nodes edges =
     (let bf = collect_stats L nodes edges in
      map (render bf) (slice_to limit (ranking permissionless_only bf)))"

definition triage :: "files \<Rightarrow> path \<Rightarrow> int \<Rightarrow> bool \<Rightarrow> labels \<Rightarrow> error + string list" where
  "triage fs codegraph_dir limit permissionless_only L =
     (let nodes_path = Slash codegraph_dir ''01_nodes.md'';
          edges_path = Slash codegraph_dir ''02_edges.md''
      in
      case parse_nodes_t fs nodes_path of
        Inl e \<Rightarrow> Inl e
      | Inr nodes \<Rightarrow>
          (case parse_edges_t fs edges_path of
             Inl e \<Rightarrow> Inl e
           | Inr edges \<Rightarrow> Inr (triage_lines limit permissionless_only L nodes edges)))"

text \<open>The parsed command line of \<open>main\<close> (the \<open>argparse\<close> namespace).\<close>

record args =
  arg_codegraph_dir :: string
  arg_limit :: int
  arg_permissionless_only :: bool
  arg_no_label_map :: bool
  arg_func_type :: string
  arg_asset_type :: string
  arg_value_edges :: string
  arg_call_edges :: string
  arg_reads_edge :: string
  arg_writes_edge :: string
  arg_role_edge :: string

definition default_args :: args where
  "default_args =
     \<lparr>arg_codegraph_dir = ''codegraph'', arg_limit = 50, arg_permissionless_only = False,
      arg_no_label_map = False, arg_func_type = ''FUNC'', arg_asset_type = ''ASSET'',
      arg_value_edges = ''TRANSFERS,MINTS,BURNS,COLLECTS_FEE'',
      arg_call_edges = ''EXT_CALLS,DELEGATECALLS,STATICCALLS'',
      arg_reads_edge = ''READS'', arg_writes_edge = ''WRITES'',
      arg_role_edge = ''REQUIRES_ROLE''\<rparr>"

definition header_line :: string where
  "header_line = ''# Triage (higher first)''"

definition sentinel_line :: string where
  "sentinel_line =
     ''- (no FUNC nodes found in SSOT; triage requires FUNC nodes + value edges like TRANSFERS/MINTS/BURNS/COLLECTS_FEE)''"

definition resolve :: "(string \<rightharpoonup> string) \<Rightarrow> string \<Rightarrow> string" where
  \<comment> \<open>The local function \<open>m\<close> of \<open>main\<close>: \<open>label_map.get(label, label)\<close>.\<close>
  "resolve label_map label = (case label_map label of Some l \<Rightarrow> l | None \<Rightarrow> label)"

definition main_labels :: "(string \<rightharpoonup> string) \<Rightarrow> args \<Rightarrow> labels" where
  "main_labels label_map a =
     \<lparr>func_type = resolve label_map (arg_func_type a),
      asset_type = resolve label_map (arg_asset_type a),
      value_edge_types = resolve label_map ` csv_set (arg_value_edges a),
      call_edge_types = resolve label_map ` csv_set (arg_call_edges a),
      reads_edge_type = resolve label_map (arg_reads_edge a),
      writes_edge_type = resolve label_map (arg_writes_edge a),
      role_edge_type = resolve label_map (arg_role_edge a)\<rparr>"

definition main_output :: "string list \<Rightarrow> string list" where
  \<comment> \<open>The three prints at the end of \<open>main\<close>, as the lines of the standard stream.\<close>
  "main_output lines =
     [header_line] @ (if length lines = 0 then [sentinel_line] else []) @ lines"

definition main :: "files \<Rightarrow> args \<Rightarrow> error + string list" where
  \<comment> \<open>\<open>Inr out\<close>: \<open>main\<close> returns after printing \<open>out\<close>; \<open>Inl e\<close>: the exception
      \<open>e\<close> leaves \<open>main\<close>.\<close>
  "main fs a =
     (let codegraph_dir = Path (arg_codegraph_dir a) in
      case (if arg_no_label_map a then Inr Map.empty
            else parse_label_map fs (Slash codegraph_dir ''00_schema.md'')) of
        Inl e \<Rightarrow> Inl e
      | Inr label_map \<Rightarrow>
          (case triage fs codegraph_dir (arg_limit a) (arg_permissionless_only a)
                  (main_labels label_map a) of
             Inl e \<Rightarrow> Inl e
           | Inr lines \<Rightarrow> Inr (main_output lines)))"


definition example_graph :: files where
  \<comment> \<open>A small codegraph directory: one node of an undeclared type, one edge
      of an undeclared type to an undeclared node.\<close>
  "example_graph =
     no_files(Slash (Path ''codegraph'') ''00_schema.md'' \<mapsto>
                Text ''## Node Types\<newline>- FUNC\<newline>## Edge Types\<newline>- CALLS\<newline>'',
              Slash (Path ''codegraph'') ''01_nodes.md'' \<mapsto> Text ''- VAR:x\<newline>- FUNC:f\<newline>'',
              Slash (Path ''codegraph'') ''02_edges.md'' \<mapsto>
                Text ''- CALLS | FUNC:f -> FUNC:f\<newline>- WRITES | FUNC:f -> VAR:y\<newline>'')"

section \<open>General facts about the model\<close>


lemma fold_rank_step:
  "fold (rank_step p) bf acc = acc @ map rank_tuple (filter (kept p) bf)"
  by (induction bf arbitrary: acc) (auto simp: rank_step_def kept_def)

lemma sort_reverse_eq: "sort_reverse xs = rev (sort xs)"
  by (simp add: sort_reverse_def properties_for_sort)

lemma ranking_eq: "ranking p bf = rev (sort (map rank_tuple (filter (kept p) bf)))"
  by (simp add: ranking_def sort_reverse_eq fold_rank_step)

lemma keys_fold_new:
  "distinct fs \<Longrightarrow> set fs \<inter> fst ` set acc = {} \<Longrightarrow>
   map fst (fold (\<lambda>func bf. AList.update func new_stats bf) fs acc) = map fst acc @ fs"
proof (induction fs arbitrary: acc)
  case Nil
  then show ?case by simp
next
  case (Cons f fs)
  have k: "map fst (AList.update f new_stats acc) = map fst acc @ [f]"
    using Cons.prems by (auto simp: update_keys)
  have "set fs \<inter> fst ` set (AList.update f new_stats acc) = {}"
  proof -
    have "fst ` set (AList.update f new_stats acc) = set (map fst (AList.update f new_stats acc))"
      by simp
    also have "\<dots> = insert f (fst ` set acc)" by (simp add: k)
    finally show ?thesis using Cons.prems by auto
  qed
  with Cons show ?case by (simp add: k)
qed

lemma keys_edge_step: "map fst (edge_step L e bf) = map fst bf"
proof (cases "map_of bf (src e)")
  case None
  then show ?thesis by (simp add: edge_step_def)
next
  case (Some st)
  then have "src e \<in> fst ` set bf"
    by (metis map_of_eq_None_iff option.distinct(1))
  with Some show ?thesis by (simp add: edge_step_def update_keys)
qed

lemma keys_fold_edge_step: "map fst (fold (edge_step L) edges bf) = map fst bf"
  by (induction edges arbitrary: bf) (simp_all add: keys_edge_step)

lemma keys_collect_stats: "map fst (collect_stats L nodes edges) = funcs_of L nodes"
  by (simp add: collect_stats_def keys_fold_edge_step keys_fold_new funcs_of_def)

lemma distinct_funcs_of: "distinct (funcs_of L nodes)"
  by (simp add: funcs_of_def)

lemma rank_tuple_func: "snd (snd (snd (snd (snd (rank_tuple item))))) = fst item"
  by (cases item) (simp add: rank_tuple_def)




lemma slice_to_neg:
  "stop < 0 \<Longrightarrow> slice_to stop xs = rev (drop (nat (- stop)) (rev xs))"
proof -
  assume neg: "stop < 0"
  have "nat (max 0 (int (length xs) + stop)) = length xs - nat (- stop)"
    using neg by (auto simp: max_def)
  then have "slice_to stop xs = take (length xs - nat (- stop)) xs"
    using neg by (simp add: slice_to_def Let_def)
  then show ?thesis by (simp add: rev_drop)
qed


lemma drop_filter_subset: "set (drop k (filter q ys)) \<subseteq> set (drop k ys)"
proof (induction ys arbitrary: k)
  case Nil
  then show ?case by simp
next
  case (Cons y ys)
  show ?case
  proof (cases k)
    case 0
    then show ?thesis by auto
  next
    case (Suc k')
    have "set (drop (Suc k') ys) \<subseteq> set (drop k' ys)"
      by (rule set_drop_subset_set_drop) simp
    with Cons.IH [of "Suc k'"] have "set (drop (Suc k') (filter q ys)) \<subseteq> set (drop k' ys)"
      by (rule subset_trans)
    with Cons.IH [of k'] show ?thesis
      by (simp add: Suc)
  qed
qed

lemma ranking_filter:
  assumes "distinct (map fst bf)"
  shows "ranking True bf
    = filter (\<lambda>r. \<exists>st. (snd (snd (snd (snd (snd r)))), st) \<in> set bf \<and> roles st = {})
        (ranking False bf)"
proof -
  let ?q = "\<lambda>r. \<exists>st. (snd (snd (snd (snd (snd r)))), st) \<in> set bf \<and> roles st = {}"
  have "map rank_tuple (filter (kept True) bf) = filter ?q (map rank_tuple bf)"
  proof -
    have "\<And>item. item \<in> set bf \<Longrightarrow> kept True item = ?q (rank_tuple item)"
    proof -
      fix item assume mem: "item \<in> set bf"
      obtain f st where item: "item = (f, st)" by (cases item)
      have uniq: "\<And>st'. (f, st') \<in> set bf \<Longrightarrow> st' = st"
        using assms mem item by (meson eq_key_imp_eq_value)
      have "(\<exists>st'. (f, st') \<in> set bf \<and> roles st' = {}) = (roles st = {})"
        using uniq mem item by blast
      moreover have "kept True item = (roles st = {})"
        by (simp add: kept_def item)
      moreover have "snd (snd (snd (snd (snd (rank_tuple item))))) = f"
        by (simp add: rank_tuple_func item)
      ultimately show "kept True item = ?q (rank_tuple item)"
        by simp
    qed
    then have "filter (kept True) bf = filter (?q \<circ> rank_tuple) bf"
      by (intro filter_cong) auto
    then show ?thesis by (simp add: filter_map)
  qed
  moreover have "filter (kept False) bf = bf" by (simp add: kept_def)
  ultimately have "ranking True bf = rev (sort (filter ?q (map rank_tuple bf)))"
    and "ranking False bf = rev (sort (map rank_tuple bf))"
    by (simp_all add: ranking_eq)
  moreover have "rev (sort (filter ?q (map rank_tuple bf)))
      = filter ?q (rev (sort (map rank_tuple bf)))"
    by (simp only: rev_filter [symmetric] filter_sort)
  ultimately show ?thesis by (simp only:)
qed

lemma length_ranking_False: "length (ranking False bf) = length bf"
  by (simp add: ranking_eq kept_def)

lemma distinct_keys_collect_stats: "distinct (map fst (collect_stats L nodes edges))"
  by (simp add: keys_collect_stats distinct_funcs_of)

lemma length_collect_stats: "length (collect_stats L nodes edges) = length (funcs_of L nodes)"
  using keys_collect_stats [of L nodes edges] by (metis length_map)

lemma slice_to_subset: "set (slice_to stop xs) \<subseteq> set xs"
  by (simp add: slice_to_def Let_def set_take_subset)

lemma slice_to_all: "int (length xs) \<le> stop \<Longrightarrow> slice_to stop xs = xs"
  by (simp add: slice_to_def Let_def min_def)

lemma slice_to_filter_neg:
  assumes "stop < 0"
  shows "set (slice_to stop (filter q xs)) \<subseteq> set (slice_to stop xs)"
proof -
  have "set (drop (nat (- stop)) (filter q (rev xs))) \<subseteq> set (drop (nat (- stop)) (rev xs))"
    by (rule drop_filter_subset)
  then show ?thesis
    using assms by (simp add: slice_to_neg rev_filter)
qed

lemma parse_schema_line_no_nodes_marker:
  assumes "strip l \<noteq> ''## Node Types''" and "sec \<noteq> Some ''nodes''"
  shows "fst (parse_schema_line l (nt, et, sec)) = nt
    \<and> snd (snd (parse_schema_line l (nt, et, sec))) \<noteq> Some ''nodes''"
  using assms by (simp add: parse_schema_line_def Let_def)

lemma parse_schema_line_no_edges_marker:
  assumes "strip l \<noteq> ''## Edge Types''" and "sec \<noteq> Some ''edges''"
  shows "fst (snd (parse_schema_line l (nt, et, sec))) = et
    \<and> snd (snd (parse_schema_line l (nt, et, sec))) \<noteq> Some ''edges''"
  using assms by (simp add: parse_schema_line_def Let_def)

lemma fold_parse_schema_no_nodes_marker:
  assumes "\<forall>l\<in>set lines. strip l \<noteq> ''## Node Types''" and "sec \<noteq> Some ''nodes''"
  shows "fst (fold parse_schema_line lines (nt, et, sec)) = nt"
  using assms
proof (induction lines arbitrary: nt et sec)
  case Nil
  then show ?case by simp
next
  case (Cons l lines)
  obtain nt1 et1 sec1 where st: "parse_schema_line l (nt, et, sec) = (nt1, et1, sec1)"
    by (cases "parse_schema_line l (nt, et, sec)") auto
  from Cons.prems have "strip l \<noteq> ''## Node Types''" by simp
  from parse_schema_line_no_nodes_marker [OF this Cons.prems(2), of nt et] st
  have "nt1 = nt" and "sec1 \<noteq> Some ''nodes''" by simp_all
  moreover from Cons.prems have "\<forall>l\<in>set lines. strip l \<noteq> ''## Node Types''" by simp
  ultimately show ?case using Cons.IH [of sec1 nt1 et1] st by simp
qed

lemma fold_parse_schema_no_edges_marker:
  assumes "\<forall>l\<in>set lines. strip l \<noteq> ''## Edge Types''" and "sec \<noteq> Some ''edges''"
  shows "fst (snd (fold parse_schema_line lines (nt, et, sec))) = et"
  using assms
proof (induction lines arbitrary: nt et sec)
  case Nil
  then show ?case by simp
next
  case (Cons l lines)
  obtain nt1 et1 sec1 where st: "parse_schema_line l (nt, et, sec) = (nt1, et1, sec1)"
    by (cases "parse_schema_line l (nt, et, sec)") auto
  from Cons.prems have "strip l \<noteq> ''## Edge Types''" by simp
  from parse_schema_line_no_edges_marker [OF this Cons.prems(2), of nt et] st
  have "et1 = et" and "sec1 \<noteq> Some ''edges''" by simp_all
  moreover from Cons.prems have "\<forall>l\<in>set lines. strip l \<noteq> ''## Edge Types''" by simp
  ultimately show ?case using Cons.IH [of sec1 nt1 et1] st by simp
qed

lemma parse_schema_present:
  "fs p = Some (Text t) \<Longrightarrow>
   parse_schema fs p = Inr (fst (parse_schema_lines (splitlines t)),
                            fst (snd (parse_schema_lines (splitlines t))))"
  by (simp add: parse_schema_def read_lines_v_def read_text_def split: prod.splits)

lemma fold_node_check:
  "fold (node_check node_types) items acc
     = acc @ concat (map (\<lambda>(node, node_type).
         if node_type \<notin> node_types then [NodeTypeNotInSchema node_type node] else []) items)"
  by (induction items arbitrary: acc) (auto simp: node_check_def)

lemma fold_edge_check:
  "fold (edge_check edges_path edge_types nodes) edges acc
     = acc @ concat (map (\<lambda>e.
         (if edge_type e \<notin> edge_types
          then [EdgeTypeNotInSchema edges_path (line_no e) (edge_type e)] else [])
         @ (if src e \<notin> fst ` set nodes
            then [MissingSrcNode edges_path (line_no e) (src e)] else [])
         @ (if dst e \<notin> fst ` set nodes
            then [MissingDstNode edges_path (line_no e) (dst e)] else [])) edges)"
  by (induction edges arbitrary: acc)
    (simp_all add: edge_check_def Let_def map_of_eq_None_iff)

lemma distinct_parse_nodes_v_line:
  "distinct (map fst nodes) \<Longrightarrow> distinct (map fst (parse_nodes_v_line line nodes))"
  by (simp add: parse_nodes_v_line_def Let_def distinct_update split: list.splits)

lemma distinct_fold_parse_nodes_v:
  "distinct (map fst nodes) \<Longrightarrow> distinct (map fst (fold parse_nodes_v_line lines nodes))"
  by (induction lines arbitrary: nodes) (simp_all add: distinct_parse_nodes_v_line)

lemma distinct_parse_nodes_v:
  "parse_nodes_v fs p = Inr nodes \<Longrightarrow> distinct (map fst nodes)"
  by (auto simp: parse_nodes_v_def parse_nodes_v_lines_def distinct_fold_parse_nodes_v
      split: sum.splits)

lemma sorted_map_fst:
  fixes xs :: "('a::linorder \<times> 'b::linorder) list"
  shows "sorted xs \<Longrightarrow> sorted (map fst xs)"
  by (induction xs) (auto simp: less_eq_prod_def)


section \<open>The schema parser\<close>

text \<open>
  C1. The claim: the current section of \<open>parse_schema\<close> goes back to none on any \<open>## \<close>
  line other than the two markers, so a bullet under a third header such as
  \<open>## Label Map\<close> reaches neither set. The code never resets \<open>section\<close>: on the schema
  below, whose label map follows the edge types, the label map's bullet is returned as an
  edge type.
\<close>

theorem parse_schema_keeps_section_after_other_header:
  "parse_schema
     (no_files(Path ''00_schema.md'' \<mapsto>
        Text ''## Edge Types\<newline>- CALLS\<newline>## Label Map\<newline>- WRITES -> MOD_STORAGE\<newline>''))
     (Path ''00_schema.md'')
   = Inr ({}, {''CALLS'', ''WRITES -> MOD_STORAGE''})"
  by code_simp

section \<open>The two node parsers\<close>

text \<open>
  C3. The claim: the validator and the triage engine parse the nodes file to the same node
  set, both dropping bullets that start with \<open>http://\<close> or \<open>https://\<close>. Only the
  validator's \<open>parse_nodes\<close> has the URL test: on a nodes file with one URL bullet it
  returns no node, and the triage engine's \<open>parse_nodes\<close> returns the URL as a node.
\<close>

theorem parse_nodes_url_bullet_differs:
  "parse_nodes_v (no_files(Path ''01_nodes.md'' \<mapsto> Text ''- https://example.com/x\<newline>''))
     (Path ''01_nodes.md'') = Inr []
   \<and> parse_nodes_t (no_files(Path ''01_nodes.md'' \<mapsto> Text ''- https://example.com/x\<newline>''))
     (Path ''01_nodes.md'') = Inr {''https://example.com/x''}"
  by code_simp

section \<open>Edge classification\<close>



section \<open>The sentinel line\<close>

text \<open>
  C9. The claim: the sentinel line \<open>no FUNC nodes found\<close> is printed exactly when no node
  has the function type, and not when the filter or the cap removed the entries. \<open>main\<close>
  tests \<open>len(lines) == 0\<close>, the list after the filter and the cap: with one function node
  that requires a role and the permissionless-only filter on, the sentinel is printed
  although \<open>funcs\<close> holds that node.
\<close>

theorem sentinel_printed_with_func_node:
  "main
     (no_files(Slash (Path ''codegraph'') ''01_nodes.md'' \<mapsto> Text ''- FUNC:f\<newline>'',
               Slash (Path ''codegraph'') ''02_edges.md'' \<mapsto>
                 Text ''- REQUIRES_ROLE | FUNC:f -> ROLE:admin\<newline>''))
     (default_args\<lparr>arg_permissionless_only := True\<rparr>)
   = Inr [header_line, sentinel_line]
   \<and> funcs_of (main_labels Map.empty default_args) {''FUNC:f''} = [''FUNC:f'']"
  by code_simp

section \<open>Ranking, cap and filter\<close>



text \<open>
  C10. With a negative limit the output is the rendering of the ranked list without its
  last \<open>|limit|\<close> entries: neither empty, nor everything, nor an error.
\<close>

theorem negative_limit_drops_last:
  fixes L :: labels and nodes :: "string set" and edges :: "edge list" and p :: bool
    and bf R
  defines "bf \<equiv> collect_stats L nodes edges"
  defines "R \<equiv> ranking p bf"
  assumes "limit < 0"
  shows "triage_lines limit p L nodes edges = map (render bf) (rev (drop (nat (- limit)) (rev R)))
    \<and> length (triage_lines limit p L nodes edges) = length R - nat (- limit)"
  using assms(3) by (simp add: triage_lines_def Let_def R_def bf_def slice_to_neg)

theorem negative_limit_drops_last_witness:
  "(- 1 :: int) < 0
   \<and> triage_lines (- 1) False (main_labels Map.empty default_args) {''FUNC:a'', ''FUNC:b''} []
     = [''- FUNC:b | value_edges=0 assets=none calls=0 writes=0 reads=0 roles=none'']"
proof -
  have h: "(- 1 :: int) < 0" by simp
  have c: "map (render (collect_stats (main_labels Map.empty default_args) {''FUNC:a'', ''FUNC:b''} []))
      (rev (drop (nat (- (- 1)))
        (rev (ranking False
           (collect_stats (main_labels Map.empty default_args) {''FUNC:a'', ''FUNC:b''} [])))))
     = [''- FUNC:b | value_edges=0 assets=none calls=0 writes=0 reads=0 roles=none'']"
    by code_simp
  from negative_limit_drops_last [OF h, where p = False
      and L = "main_labels Map.empty default_args" and nodes = "{''FUNC:a'', ''FUNC:b''}"
      and edges = "[]"]
  have "triage_lines (- 1) False (main_labels Map.empty default_args) {''FUNC:a'', ''FUNC:b''} []
     = map (render (collect_stats (main_labels Map.empty default_args) {''FUNC:a'', ''FUNC:b''} []))
      (rev (drop (nat (- (- 1)))
        (rev (ranking False
           (collect_stats (main_labels Map.empty default_args) {''FUNC:a'', ''FUNC:b''} [])))))"
    by (rule conjunct1)
  with c h show ?thesis by (simp only:)
qed

text \<open>
  C2. The claim: with the same files, labels and limit, the entries of the run with the
  permissionless-only filter are among those of the run without it. The cap is applied
  after the filter: with limit 1, a function that requires a role and ranks first, and a
  permissionless one that ranks second, the unfiltered run prints only the first and the
  filtered run prints the second.
\<close>

theorem permissionless_only_cap_counterexample:
  "triage
     (no_files(Slash (Path ''codegraph'') ''01_nodes.md'' \<mapsto> Text ''- FUNC:a\<newline>- FUNC:b\<newline>'',
               Slash (Path ''codegraph'') ''02_edges.md'' \<mapsto>
                 Text ''- TRANSFERS | FUNC:a -> ASSET:x\<newline>- REQUIRES_ROLE | FUNC:a -> ROLE:admin\<newline>''))
     (Path ''codegraph'') 1 False (main_labels Map.empty default_args)
   = Inr [''- FUNC:a | value_edges=1 assets=ASSET:x calls=0 writes=0 reads=0 roles=ROLE:admin'']
   \<and> triage
     (no_files(Slash (Path ''codegraph'') ''01_nodes.md'' \<mapsto> Text ''- FUNC:a\<newline>- FUNC:b\<newline>'',
               Slash (Path ''codegraph'') ''02_edges.md'' \<mapsto>
                 Text ''- TRANSFERS | FUNC:a -> ASSET:x\<newline>- REQUIRES_ROLE | FUNC:a -> ROLE:admin\<newline>''))
     (Path ''codegraph'') 1 True (main_labels Map.empty default_args)
   = Inr [''- FUNC:b | value_edges=0 assets=none calls=0 writes=0 reads=0 roles=none'']
   \<and> ''- FUNC:b | value_edges=0 assets=none calls=0 writes=0 reads=0 roles=none''
     \<notin> set [''- FUNC:a | value_edges=1 assets=ASSET:x calls=0 writes=0 reads=0 roles=ROLE:admin'']"
  by code_simp

text \<open>
  C2, amended. Every entry of the filtered run is an entry of the unfiltered run whose
  limit is the number of function nodes (no cap); and the filtered run's entries are among
  those of the unfiltered run with the same limit whenever that limit is negative or at
  least the number of function nodes.
\<close>

theorem permissionless_only_removes:
  "set (triage_lines limit True L nodes edges)
     \<subseteq> set (triage_lines (int (length (funcs_of L nodes))) False L nodes edges)
   \<and> (limit < 0 \<or> int (length (funcs_of L nodes)) \<le> limit \<longrightarrow>
        set (triage_lines limit True L nodes edges)
          \<subseteq> set (triage_lines limit False L nodes edges))"
proof -
  let ?bf = "collect_stats L nodes edges"
  let ?q = "\<lambda>r. \<exists>st. (snd (snd (snd (snd (snd r)))), st) \<in> set ?bf \<and> roles st = {}"
  have filt: "ranking True ?bf = filter ?q (ranking False ?bf)"
    by (rule ranking_filter) (rule distinct_keys_collect_stats)
  have len: "length (ranking False ?bf) = length (funcs_of L nodes)"
    by (simp add: length_ranking_False length_collect_stats)
  have sub: "set (ranking True ?bf) \<subseteq> set (ranking False ?bf)"
    by (simp add: filt)
  have "set (slice_to limit (ranking True ?bf)) \<subseteq> set (ranking False ?bf)"
    using slice_to_subset [of limit "ranking True ?bf"] sub by (rule subset_trans)
  moreover have full: "slice_to (int (length (funcs_of L nodes))) (ranking False ?bf)
      = ranking False ?bf"
    by (rule slice_to_all) (simp add: len)
  ultimately have uncapped: "set (triage_lines limit True L nodes edges)
     \<subseteq> set (triage_lines (int (length (funcs_of L nodes))) False L nodes edges)"
    by (auto simp: triage_lines_def Let_def)
  have same: "limit < 0 \<or> int (length (funcs_of L nodes)) \<le> limit \<longrightarrow>
        set (triage_lines limit True L nodes edges)
          \<subseteq> set (triage_lines limit False L nodes edges)"
  proof
    assume "limit < 0 \<or> int (length (funcs_of L nodes)) \<le> limit"
    then have "set (slice_to limit (ranking True ?bf)) \<subseteq> set (slice_to limit (ranking False ?bf))"
    proof
      assume "limit < 0"
      then show ?thesis
        unfolding filt by (rule slice_to_filter_neg)
    next
      assume big: "int (length (funcs_of L nodes)) \<le> limit"
      have "slice_to limit (ranking False ?bf) = ranking False ?bf"
        by (rule slice_to_all) (simp add: len big)
      with slice_to_subset [of limit "ranking True ?bf"] sub show ?thesis by auto
    qed
    then show "set (triage_lines limit True L nodes edges)
          \<subseteq> set (triage_lines limit False L nodes edges)"
      by (auto simp: triage_lines_def Let_def)
  qed
  from uncapped same show ?thesis by blast
qed

theorem permissionless_only_removes_witness:
  "int (length (funcs_of (main_labels Map.empty default_args) {''FUNC:a'', ''FUNC:b''})) \<le> 2
   \<and> set (triage_lines 2 True (main_labels Map.empty default_args) {''FUNC:a'', ''FUNC:b''}
        [\<lparr>edge_type = ''REQUIRES_ROLE'', src = ''FUNC:a'', dst = ''ROLE:admin'', line_no = 1\<rparr>])
     \<subseteq> set (triage_lines 2 False (main_labels Map.empty default_args) {''FUNC:a'', ''FUNC:b''}
        [\<lparr>edge_type = ''REQUIRES_ROLE'', src = ''FUNC:a'', dst = ''ROLE:admin'', line_no = 1\<rparr>])"
proof -
  have h: "int (length (funcs_of (main_labels Map.empty default_args) {''FUNC:a'', ''FUNC:b''})) \<le> 2"
    by code_simp
  from permissionless_only_removes [of 2 "main_labels Map.empty default_args"
      "{''FUNC:a'', ''FUNC:b''}"
      "[\<lparr>edge_type = ''REQUIRES_ROLE'', src = ''FUNC:a'', dst = ''ROLE:admin'', line_no = 1\<rparr>]"] h
  show ?thesis by blast
qed

section \<open>Missing files\<close>

text \<open>
  C4. The claim: with the schema file missing, the schema parser returns two empty sets
  and validation goes on. The validator's \<open>_read_lines\<close> turns the missing file into
  \<open>SystemExit("missing file: ...")\<close>, which leaves \<open>parse_schema\<close> and \<open>validate\<close>.
\<close>

theorem parse_schema_missing_file_counterexample:
  "parse_schema no_files (Slash (Path ''codegraph'') ''00_schema.md'')
     = Inl (SystemExit_missing_file (Slash (Path ''codegraph'') ''00_schema.md''))
   \<and> validate no_files (Path ''codegraph'')
     = Inl (SystemExit_missing_file (Slash (Path ''codegraph'') ''00_schema.md''))"
  by code_simp

text \<open>
  C4, amended. A missing schema file makes \<open>parse_schema\<close> raise
  \<open>SystemExit("missing file: <path>")\<close>, and \<open>validate\<close> ends with it before any check;
  a schema file that is read as text and has no line equal, after trimming, to one of the
  two section markers gives two empty sets and no error.
\<close>

theorem parse_schema_missing_or_without_sections:
  "(fs p = None \<longrightarrow> parse_schema fs p = Inl (SystemExit_missing_file p))
   \<and> (fs (Slash d ''00_schema.md'') = None \<longrightarrow>
        validate fs d = Inl (SystemExit_missing_file (Slash d ''00_schema.md'')))
   \<and> (\<forall>t. fs p = Some (Text t)
          \<and> (\<forall>l\<in>set (splitlines t). strip l \<noteq> ''## Node Types'' \<and> strip l \<noteq> ''## Edge Types'')
        \<longrightarrow> parse_schema fs p = Inr ({}, {}))"
proof -
  have missing: "fs p = None \<longrightarrow> parse_schema fs p = Inl (SystemExit_missing_file p)"
    by (simp add: parse_schema_def read_lines_v_def read_text_def)
  have abort: "fs (Slash d ''00_schema.md'') = None \<longrightarrow>
        validate fs d = Inl (SystemExit_missing_file (Slash d ''00_schema.md''))"
    by (simp add: validate_def parse_schema_def read_lines_v_def read_text_def)
  have absent: "\<forall>t. fs p = Some (Text t)
          \<and> (\<forall>l\<in>set (splitlines t). strip l \<noteq> ''## Node Types'' \<and> strip l \<noteq> ''## Edge Types'')
        \<longrightarrow> parse_schema fs p = Inr ({}, {})"
  proof (intro allI impI)
    fix t
    assume h: "fs p = Some (Text t)
          \<and> (\<forall>l\<in>set (splitlines t). strip l \<noteq> ''## Node Types'' \<and> strip l \<noteq> ''## Edge Types'')"
    then have n: "\<forall>l\<in>set (splitlines t). strip l \<noteq> ''## Node Types''"
      and e: "\<forall>l\<in>set (splitlines t). strip l \<noteq> ''## Edge Types''"
      by simp_all
    have "fst (parse_schema_lines (splitlines t)) = {}"
      unfolding parse_schema_lines_def
      by (rule fold_parse_schema_no_nodes_marker [OF n]) simp
    moreover have "fst (snd (parse_schema_lines (splitlines t))) = {}"
      unfolding parse_schema_lines_def
      by (rule fold_parse_schema_no_edges_marker [OF e]) simp
    ultimately show "parse_schema fs p = Inr ({}, {})"
      using h by (simp add: parse_schema_present)
  qed
  from missing abort absent show ?thesis by blast
qed

theorem parse_schema_missing_or_without_sections_witness:
  "no_files (Path ''00_schema.md'') = None
   \<and> parse_schema no_files (Path ''00_schema.md'')
       = Inl (SystemExit_missing_file (Path ''00_schema.md''))
   \<and> (no_files(Path ''00_schema.md'' \<mapsto> Text ''# Schema\<newline>- FUNC\<newline>## Label Map\<newline>- A -> B\<newline>''))
       (Path ''00_schema.md'') = Some (Text ''# Schema\<newline>- FUNC\<newline>## Label Map\<newline>- A -> B\<newline>'')
   \<and> parse_schema
       (no_files(Path ''00_schema.md'' \<mapsto> Text ''# Schema\<newline>- FUNC\<newline>## Label Map\<newline>- A -> B\<newline>''))
       (Path ''00_schema.md'') = Inr ({}, {})"
proof -
  let ?p = "Path ''00_schema.md''"
  let ?t = "''# Schema\<newline>- FUNC\<newline>## Label Map\<newline>- A -> B\<newline>''"
  have m: "no_files ?p = None" by (simp add: no_files_def)
  have s: "(no_files(?p \<mapsto> Text ?t)) ?p = Some (Text ?t)" by simp
  have l: "\<forall>l\<in>set (splitlines ?t). strip l \<noteq> ''## Node Types'' \<and> strip l \<noteq> ''## Edge Types''"
    by code_simp
  from parse_schema_missing_or_without_sections [of no_files ?p] m
  have a: "parse_schema no_files ?p = Inl (SystemExit_missing_file ?p)" by blast
  from parse_schema_missing_or_without_sections [of "no_files(?p \<mapsto> Text ?t)" ?p] s l
  have b: "parse_schema (no_files(?p \<mapsto> Text ?t)) ?p = Inr ({}, {})" by blast
  from m a s b show ?thesis by blast
qed




section \<open>The validator's report\<close>

text \<open>
  C7. When the three files exist, the report of \<open>validate\<close> is: first one
  \<open>node type not in schema\<close> error for each node whose type is not in the schema, the
  nodes taken in the order of their identifiers, each node once; then, edge by edge in
  file order, the errors for an unknown edge type, a missing source and a missing
  destination, each exactly when its condition fails and none stopping the others.
  The result is \<open>FAIL\<close> with status 1 when that list is not empty and \<open>OK\<close> with the two
  counts and status 0 otherwise; with no node and no edge it is \<open>OK\<close> 0/0 for every
  schema.
\<close>

theorem validate_report_complete:
  fixes fs :: files and d :: path and node_types edge_types :: "string set"
    and nodes :: "(string \<times> string) list" and edges :: "edge_v list"
    and edges_path node_errors edge_errors
  defines "edges_path \<equiv> Slash d ''02_edges.md''"
  defines "node_errors \<equiv> concat (map (\<lambda>(node, node_type).
      if node_type \<notin> node_types then [NodeTypeNotInSchema node_type node] else []) (sort nodes))"
  defines "edge_errors \<equiv> concat (map (\<lambda>e.
      (if edge_type e \<notin> edge_types
       then [EdgeTypeNotInSchema edges_path (line_no e) (edge_type e)] else [])
      @ (if src e \<notin> fst ` set nodes
         then [MissingSrcNode edges_path (line_no e) (src e)] else [])
      @ (if dst e \<notin> fst ` set nodes
         then [MissingDstNode edges_path (line_no e) (dst e)] else [])) edges)"
  assumes schema: "parse_schema fs (Slash d ''00_schema.md'') = Inr (node_types, edge_types)"
    and nodes: "parse_nodes_v fs (Slash d ''01_nodes.md'') = Inr nodes"
    and edges: "parse_edges_v fs (Slash d ''02_edges.md'') = Inr edges"
  shows "validate fs d
      = Inr (if node_errors @ edge_errors = [] then (0, OK (length nodes) (length edges))
             else (1, FAIL (node_errors @ edge_errors)))
    \<and> sorted (map fst (sort nodes)) \<and> distinct (map fst (sort nodes))
    \<and> set (sort nodes) = set nodes
    \<and> (nodes = [] \<and> edges = [] \<longrightarrow> validate fs d = Inr (0, OK 0 0))"
proof -
  have errs: "validate_errors edges_path node_types edge_types nodes edges
      = node_errors @ edge_errors"
    by (simp add: validate_errors_def fold_node_check fold_edge_check node_errors_def
        edge_errors_def)
  have v: "validate fs d
      = Inr (if node_errors @ edge_errors = [] then (0, OK (length nodes) (length edges))
             else (1, FAIL (node_errors @ edge_errors)))"
    using schema nodes edges errs
    by (simp add: validate_def Let_def edges_path_def del: append_is_Nil_conv)
  have srt: "sorted (map fst (sort nodes))"
    by (rule sorted_map_fst) simp
  have "distinct (map fst nodes)"
    using nodes by (rule distinct_parse_nodes_v)
  then have "distinct (map fst (sort nodes))"
    by (metis distinct_map distinct_sort set_sort)
  moreover have "set (sort nodes) = set nodes" by simp
  moreover have "nodes = [] \<and> edges = [] \<longrightarrow> validate fs d = Inr (0, OK 0 0)"
    using v by (simp add: node_errors_def edge_errors_def)
  ultimately show ?thesis using v srt by blast
qed

theorem validate_report_complete_witness:
  "parse_schema example_graph (Slash (Path ''codegraph'') ''00_schema.md'')
     = Inr ({''FUNC''}, {''CALLS''})
   \<and> parse_nodes_v example_graph (Slash (Path ''codegraph'') ''01_nodes.md'')
     = Inr [(''VAR:x'', ''VAR''), (''FUNC:f'', ''FUNC'')]
   \<and> parse_edges_v example_graph (Slash (Path ''codegraph'') ''02_edges.md'')
     = Inr [\<lparr>edge_type = ''CALLS'', src = ''FUNC:f'', dst = ''FUNC:f'', line_no = 1,
              raw = ''- CALLS | FUNC:f -> FUNC:f''\<rparr>,
            \<lparr>edge_type = ''WRITES'', src = ''FUNC:f'', dst = ''VAR:y'', line_no = 2,
              raw = ''- WRITES | FUNC:f -> VAR:y''\<rparr>]
   \<and> validate example_graph (Path ''codegraph'')
     = Inr (1, FAIL [NodeTypeNotInSchema ''VAR'' ''VAR:x'',
                     EdgeTypeNotInSchema (Slash (Path ''codegraph'') ''02_edges.md'') 2 ''WRITES'',
                     MissingDstNode (Slash (Path ''codegraph'') ''02_edges.md'') 2 ''VAR:y''])"
proof -
  have s: "parse_schema example_graph (Slash (Path ''codegraph'') ''00_schema.md'')
     = Inr ({''FUNC''}, {''CALLS''})"
    by code_simp
  have n: "parse_nodes_v example_graph (Slash (Path ''codegraph'') ''01_nodes.md'')
     = Inr [(''VAR:x'', ''VAR''), (''FUNC:f'', ''FUNC'')]"
    by code_simp
  have e: "parse_edges_v example_graph (Slash (Path ''codegraph'') ''02_edges.md'')
     = Inr [\<lparr>edge_type = ''CALLS'', src = ''FUNC:f'', dst = ''FUNC:f'', line_no = 1,
              raw = ''- CALLS | FUNC:f -> FUNC:f''\<rparr>,
            \<lparr>edge_type = ''WRITES'', src = ''FUNC:f'', dst = ''VAR:y'', line_no = 2,
              raw = ''- WRITES | FUNC:f -> VAR:y''\<rparr>]"
    by code_simp
  have srt: "sort [(''VAR:x'', ''VAR''), (''FUNC:f'', ''FUNC'')]
      = [(''FUNC:f'', ''FUNC''), (''VAR:x'', ''VAR'')]"
    by code_simp
  from validate_report_complete [OF s n e]
  have "validate example_graph (Path ''codegraph'')
     = Inr (1, FAIL [NodeTypeNotInSchema ''VAR'' ''VAR:x'',
                     EdgeTypeNotInSchema (Slash (Path ''codegraph'') ''02_edges.md'') 2 ''WRITES'',
                     MissingDstNode (Slash (Path ''codegraph'') ''02_edges.md'') 2 ''VAR:y''])"
    by (simp add: srt)
  with s n e show ?thesis by blast
qed

end
